theory Spec2Isabelle
  imports Main
begin

section \<open>Values, strings and exceptions\<close>

text \<open>
  A cell of the table, a default or an enum value, as \<^verbatim>\<open>dea.py\<close> tells them apart:
  \<^verbatim>\<open>None\<close>, a float that \<^verbatim>\<open>pd.isna\<close> accepts, a \<^verbatim>\<open>str\<close>, and any other object
  (a number, a boolean), which the program only ever reads through \<^verbatim>\<open>str(v)\<close> and so
  is carried by that text. A string is a list of characters, and a character stands for
  the code point with its number, from 0 to 255; text with other code points is not
  covered.
\<close>

datatype pyval = PNone | PNaN | PStr string | POther string

fun py_str :: "pyval \<Rightarrow> string" where
  "py_str PNone = ''None''"
| "py_str PNaN = ''nan''"
| "py_str (PStr s) = s"
| "py_str (POther s) = s"

text \<open>
  The exceptions the program meets. \<open>OtherException s\<close> is any further exception of
  the automation library, carried by its \<^verbatim>\<open>str(e)\<close>.
\<close>

datatype exn =
    TimeoutException
  | NoSuchElementException
  | KeyError string
  | ValueError string
  | TypeError string
  | OtherException string

text \<open>
  \<^verbatim>\<open>repr\<close> of a string, as \<^verbatim>\<open>str(KeyError(k))\<close> and the formatting of a list print
  it. Of the code points up to 255, the ones \<^verbatim>\<open>repr\<close> escapes as not printable are
  those below 32, those from 127 to 160, and 173.
\<close>

definition squote :: char where
  "squote = CHR 0x27"

definition dquote :: char where
  "dquote = CHR 0x22"

definition backslash :: char where
  "backslash = CHR 0x5C"

definition hex_digit :: "nat \<Rightarrow> char" where
  "hex_digit n = ''0123456789abcdef'' ! (n mod 16)"

definition repr_char :: "char \<Rightarrow> char \<Rightarrow> string" where
  "repr_char q c =
     (if c = q \<or> c = backslash then [backslash, c]
      else if c = CHR 0x09 then [backslash, CHR ''t'']
      else if c = CHR 0x0A then [backslash, CHR ''n'']
      else if c = CHR 0x0D then [backslash, CHR ''r'']
      else if (of_char c :: nat) < 32
              \<or> (127 \<le> (of_char c :: nat) \<and> (of_char c :: nat) \<le> 160)
              \<or> (of_char c :: nat) = 173
        then [backslash, CHR ''x'', hex_digit (of_char c div 16), hex_digit (of_char c)]
      else [c])"

definition repr_str :: "string \<Rightarrow> string" where
  "repr_str s =
     (let q = (if squote \<in> set s \<and> dquote \<notin> set s then dquote else squote)
      in q # concat (map (repr_char q) s) @ [q])"

fun py_repr :: "pyval \<Rightarrow> string" where
  "py_repr (PStr s) = repr_str s"
| "py_repr v = py_str v"

fun join :: "string \<Rightarrow> string list \<Rightarrow> string" where
  "join sep [] = []"
| "join sep [x] = x"
| "join sep (x # y # ys) = x @ sep @ join sep (y # ys)"

definition repr_list :: "pyval list \<Rightarrow> string" where
  "repr_list vs = ''['' @ join '', '' (map py_repr vs) @ '']''"

section \<open>Field rules and validators\<close>

text \<open>
  One entry of a rule's \<^verbatim>\<open>validators\<close> list is a dictionary; the program reads the
  keys \<^verbatim>\<open>type\<close>, \<^verbatim>\<open>pattern\<close>, \<^verbatim>\<open>values\<close> and \<^verbatim>\<open>message\<close>. A field is
  \<open>None\<close> when the key is absent.
\<close>

record validator =
  vtype :: "string option"
  pattern :: "string option"
  vvalues :: "pyval list option"
  message :: "string option"

text \<open>The dataclass \<^verbatim>\<open>FieldRule\<close>, with its field \<^verbatim>\<open>type\<close> named \<open>ftype\<close>.\<close>

record FieldRule =
  selector :: string
  ftype :: string
  required :: bool
  default :: "string option"
  validators :: "validator list option"

text \<open>
  A mapping entry as the YAML reader hands it to \<^verbatim>\<open>FieldRule(**v)\<close>: the keys the
  dataclass knows, each present or not, and the names of any other keys.
\<close>

record raw_rule =
  raw_selector :: "string option"
  raw_type :: "string option"
  raw_required :: "bool option"
  raw_default :: "string option"
  raw_validators :: "validator list option"
  raw_unknown :: "string list"

definition make_FieldRule :: "raw_rule \<Rightarrow> exn + FieldRule" where
  "make_FieldRule v =
     (case raw_unknown v of
        k # ks \<Rightarrow> Inl (TypeError (''FieldRule.__init__() got an unexpected keyword argument ''
                        @ repr_str k))
      | [] \<Rightarrow>
        (case raw_selector v of
           None \<Rightarrow> Inl (TypeError
             (''FieldRule.__init__() missing 1 required positional argument: ''
                @ repr_str ''selector''))
         | Some s \<Rightarrow>
             Inr \<lparr> selector = s,
                   ftype = (case raw_type v of None \<Rightarrow> ''input'' | Some t \<Rightarrow> t),
                   required = (case raw_required v of None \<Rightarrow> False | Some r \<Rightarrow> r),
                   default = raw_default v,
                   validators = raw_validators v \<rparr>))"

fun load_fields :: "(string \<times> raw_rule) list \<Rightarrow> exn + (string \<times> FieldRule) list" where
  "load_fields [] = Inr []"
| "load_fields ((k, v) # kvs) =
     (case make_FieldRule v of
        Inl e \<Rightarrow> Inl e
      | Inr r \<Rightarrow> (case load_fields kvs of Inl e \<Rightarrow> Inl e | Inr rs \<Rightarrow> Inr ((k, r) # rs)))"

section \<open>Truthy coercion\<close>

text \<open>
  \<^verbatim>\<open>str.strip()\<close> removes the characters \<^verbatim>\<open>str.isspace\<close> accepts: up to 255 these
  are 9 to 13, 28 to 32, 133 and 160. \<^verbatim>\<open>str.lower()\<close> moves the letters 65 to 90 and
  192 to 222, without 215, up by 32.
\<close>

definition is_space :: "char \<Rightarrow> bool" where
  "is_space c = ((of_char c :: nat) \<in> {9, 10, 11, 12, 13, 28, 29, 30, 31, 32, 133, 160})"

definition lower_char :: "char \<Rightarrow> char" where
  "lower_char c =
     (if (65 \<le> (of_char c :: nat) \<and> (of_char c :: nat) \<le> 90)
         \<or> (192 \<le> (of_char c :: nat) \<and> (of_char c :: nat) \<le> 222 \<and> (of_char c :: nat) \<noteq> 215)
      then char_of ((of_char c :: nat) + 32) else c)"

definition strip :: "string \<Rightarrow> string" where
  "strip s = rev (dropWhile is_space (rev (dropWhile is_space s)))"

definition coerce_truthy :: "pyval \<Rightarrow> bool" where
  "coerce_truthy v =
     (map lower_char (strip (py_str v)) \<in> {''1'', ''true'', ''yes'', ''y'', ''on'', ''t''})"

section \<open>Row validation\<close>

type_synonym row = "string \<Rightarrow> pyval option"

definition row_get :: "row \<Rightarrow> string \<Rightarrow> pyval" where
  "row_get r col = (case r col of None \<Rightarrow> PNone | Some v \<Rightarrow> v)"

text \<open>The test of line 38: the cell is \<^verbatim>\<open>None\<close>, a NaN float, or prints as the
  empty string.\<close>

definition cell_missing :: "pyval \<Rightarrow> bool" where
  "cell_missing val = (val = PNone \<or> val = PNaN \<or> py_str val = [])"

text \<open>
  One pass of the body of the loop over \<^verbatim>\<open>rule.validators\<close> (lines 42 to 47):
  \<open>Inr None\<close> when the loop goes on, \<open>Inr (Some m)\<close> when the function returns \<open>m\<close>,
  \<open>Inl e\<close> when a subscript raises. The regular-expression engine is a parameter:
  \<open>fullmatch p s\<close> says whether \<^verbatim>\<open>re.fullmatch(p, s)\<close> finds a match; patterns are
  taken to compile. A message, when the key is present, is a string.
\<close>

definition check_validator ::
  "(string \<Rightarrow> string \<Rightarrow> bool) \<Rightarrow> string \<Rightarrow> pyval \<Rightarrow> validator \<Rightarrow> exn + string option" where
  "check_validator fullmatch col val vd =
     (if vtype vd = Some ''regex'' \<and> val \<noteq> PNone \<and> py_str val \<noteq> [] then
        (case pattern vd of
           None \<Rightarrow> Inl (KeyError ''pattern'')
         | Some p \<Rightarrow>
             if fullmatch p (py_str val) then Inr None
             else Inr (Some (case message vd of
                               None \<Rightarrow> ''Invalid value for '' @ col
                             | Some m \<Rightarrow> m)))
      else if vtype vd = Some ''enum'' \<and> val \<noteq> PNone then
        (case vvalues vd of
           None \<Rightarrow> Inl (KeyError ''values'')
         | Some vs \<Rightarrow>
             if py_str val \<in> set (map py_str vs) then Inr None
             else Inr (Some (case message vd of
                               None \<Rightarrow> col @ '' must be one of '' @ repr_list vs
                             | Some m \<Rightarrow> m)))
      else Inr None)"

fun run_validators ::
  "(string \<Rightarrow> string \<Rightarrow> bool) \<Rightarrow> string \<Rightarrow> pyval \<Rightarrow> validator list \<Rightarrow> exn + string option" where
  "run_validators fullmatch col val [] = Inr None"
| "run_validators fullmatch col val (vd # vds) =
     (case check_validator fullmatch col val vd of
        Inl e \<Rightarrow> Inl e
      | Inr (Some m) \<Rightarrow> Inr (Some m)
      | Inr None \<Rightarrow> run_validators fullmatch col val vds)"

text \<open>One pass of the loop over the fields (lines 37 to 47).\<close>

definition check_field ::
  "(string \<Rightarrow> string \<Rightarrow> bool) \<Rightarrow> row \<Rightarrow> string \<Rightarrow> FieldRule \<Rightarrow> exn + string option" where
  "check_field fullmatch r col rule =
     (let val = row_get r col in
      if cell_missing val \<and> required rule \<and> default rule = None
      then Inr (Some (''Missing required field: '' @ col))
      else (case validators rule of
              None \<Rightarrow> Inr None
            | Some vds \<Rightarrow> run_validators fullmatch col val vds))"

fun validate_row ::
  "(string \<Rightarrow> string \<Rightarrow> bool) \<Rightarrow> row \<Rightarrow> (string \<times> FieldRule) list \<Rightarrow> exn + string option" where
  "validate_row fullmatch r [] = Inr None"
| "validate_row fullmatch r ((col, rule) # rest) =
     (case check_field fullmatch r col rule of
        Inl e \<Rightarrow> Inl e
      | Inr (Some m) \<Rightarrow> Inr (Some m)
      | Inr None \<Rightarrow> validate_row fullmatch r rest)"

section \<open>The automation surface\<close>

text \<open>
  The browser is outside the program. Its state is a type parameter \<open>'b\<close>, the handle
  of an element a type parameter \<open>'e\<close>, and each operation the program uses is a
  component of the record below: given the browser, it returns a value or an exception,
  and the browser after the operation. Nothing is assumed about these operations except
  where a theorem says so.
\<close>

record ('b, 'e) surface =
  sf_get :: "string \<Rightarrow> 'b \<Rightarrow> (exn + unit) \<times> 'b"
  sf_find_element :: "string \<Rightarrow> 'b \<Rightarrow> (exn + 'e) \<times> 'b"
  sf_clear :: "'e \<Rightarrow> 'b \<Rightarrow> (exn + unit) \<times> 'b"
  sf_send_keys :: "'e \<Rightarrow> string \<Rightarrow> 'b \<Rightarrow> (exn + unit) \<times> 'b"
  sf_select_by_value :: "'e \<Rightarrow> string \<Rightarrow> 'b \<Rightarrow> (exn + unit) \<times> 'b"
  sf_is_selected :: "'e \<Rightarrow> 'b \<Rightarrow> (exn + bool) \<times> 'b"
  sf_click :: "'e \<Rightarrow> 'b \<Rightarrow> (exn + unit) \<times> 'b"
  sf_wait_visible :: "string \<Rightarrow> 'b \<Rightarrow> (exn + unit) \<times> 'b"
  sf_wait_text :: "string \<Rightarrow> string \<Rightarrow> 'b \<Rightarrow> (exn + unit) \<times> 'b"

text \<open>Every call the program makes on the driver is recorded, with the selector of the
  element it was made on.\<close>

datatype call =
    Get string
  | Find_element string
  | Clear string
  | Send_keys string string
  | Select_by_value string string
  | Is_selected string
  | Click string
  | Wait_visible string
  | Wait_text string string
  | Quit

record 'b driver =
  browser :: 'b
  calls :: "call list"

type_synonym ('a, 'b) act = "'b driver \<Rightarrow> (exn + 'a) \<times> 'b driver"

definition call_op :: "call \<Rightarrow> ('b \<Rightarrow> (exn + 'a) \<times> 'b) \<Rightarrow> ('a, 'b) act" where
  "call_op c f d =
     (case f (browser d) of (res, b) \<Rightarrow> (res, \<lparr> browser = b, calls = calls d @ [c] \<rparr>))"

definition and_then :: "('a, 'b) act \<Rightarrow> ('a \<Rightarrow> ('c, 'b) act) \<Rightarrow> ('c, 'b) act" where
  "and_then m f d = (case m d of (Inl e, d') \<Rightarrow> (Inl e, d') | (Inr a, d') \<Rightarrow> f a d')"

definition return :: "'a \<Rightarrow> ('a, 'b) act" where
  "return a d = (Inr a, d)"

definition raise :: "exn \<Rightarrow> ('a, 'b) act" where
  "raise e d = (Inl e, d)"

text \<open>A subscript \<^verbatim>\<open>d[k]\<close> on a dictionary of the configuration.\<close>

definition subscript :: "'a option \<Rightarrow> string \<Rightarrow> ('a, 'b) act" where
  "subscript v k = (case v of None \<Rightarrow> raise (KeyError k) | Some a \<Rightarrow> return a)"

section \<open>Setting one field\<close>

definition set_field :: "('b, 'e) surface \<Rightarrow> FieldRule \<Rightarrow> pyval \<Rightarrow> (unit, 'b) act" where
  "set_field sf rule val =
     and_then (call_op (Find_element (selector rule)) (sf_find_element sf (selector rule)))
       (\<lambda>elem.
          if ftype rule = ''input'' then
            and_then (call_op (Clear (selector rule)) (sf_clear sf elem))
              (\<lambda>_. let text = py_str (if val = PNone then PStr [] else val)
                   in call_op (Send_keys (selector rule) text) (sf_send_keys sf elem text))
          else if ftype rule = ''select'' then
            call_op (Select_by_value (selector rule) (py_str val))
              (sf_select_by_value sf elem (py_str val))
          else if ftype rule = ''checkbox'' then
            (let should_check = coerce_truthy val in
             and_then (call_op (Is_selected (selector rule)) (sf_is_selected sf elem))
               (\<lambda>cur. if cur \<noteq> should_check
                       then call_op (Click (selector rule)) (sf_click sf elem)
                       else return ()))
          else raise (ValueError (''Unsupported field type: '' @ ftype rule)))"

section \<open>The run\<close>

record success_check =
  sc_selector :: "string option"
  sc_text_contains :: "string option"

text \<open>The mapping after \<^verbatim>\<open>load_mapping\<close>: the keys the run reads.\<close>

record config =
  cfg_url :: "string option"
  cfg_submit_selector :: "string option"
  cfg_success_check :: "success_check option"
  cfg_fields :: "(string \<times> FieldRule) list"

record raw_config =
  raw_url :: "string option"
  raw_submit_selector :: "string option"
  raw_success_check :: "success_check option"
  raw_fields :: "(string \<times> raw_rule) list option"

definition load_mapping :: "raw_config \<Rightarrow> exn + config" where
  "load_mapping raw =
     (case raw_fields raw of
        None \<Rightarrow> Inl (KeyError ''fields'')
      | Some kvs \<Rightarrow>
          (case load_fields kvs of
             Inl e \<Rightarrow> Inl e
           | Inr fs \<Rightarrow> Inr \<lparr> cfg_url = raw_url raw,
                            cfg_submit_selector = raw_submit_selector raw,
                            cfg_success_check = raw_success_check raw,
                            cfg_fields = fs \<rparr>))"

subsection \<open>Row selection and numbering\<close>

text \<open>A slice \<^verbatim>\<open>xs[lo:hi]\<close> with Python's treatment of negative and too large bounds.\<close>

definition clamp_index :: "int \<Rightarrow> int \<Rightarrow> int" where
  "clamp_index n i = (if i < 0 then max (n + i) 0 else min i n)"

definition py_slice :: "'a list \<Rightarrow> int \<Rightarrow> int option \<Rightarrow> 'a list" where
  "py_slice xs lo hi =
     (let n = int (length xs);
          a = clamp_index n lo;
          b = (case hi of None \<Rightarrow> n | Some h \<Rightarrow> clamp_index n h)
      in take (nat (b - a)) (drop (nat a) xs))"

text \<open>The command line: \<open>a_end\<close> and \<open>a_filter\<close> are \<open>None\<close> when the option is not
  given. The filter expression is represented by the predicate it denotes on a row.\<close>

record args =
  a_start :: int
  a_end :: "int option"
  a_filter :: "(row \<Rightarrow> bool) option"
  a_dry_run :: bool
  a_resume :: bool

definition select_rows :: "args \<Rightarrow> row list \<Rightarrow> row list" where
  "select_rows a df =
     (let sliced = (case a_end a of
                      None \<Rightarrow> py_slice df (a_start a - 1) None
                    | Some e \<Rightarrow> if e \<noteq> 0 then py_slice df (a_start a - 1) (Some e)
                               else py_slice df (a_start a - 1) None)
      in case a_filter a of None \<Rightarrow> sliced | Some p \<Rightarrow> filter p sliced)"

text \<open>Lines 127 and 128: the index is reset after selection, and the row number is
  \<^verbatim>\<open>args.start + idx\<close>.\<close>

definition numbered_rows :: "args \<Rightarrow> row list \<Rightarrow> (int \<times> row) list" where
  "numbered_rows a df =
     (let rs = select_rows a df
      in map (\<lambda>(idx, r). (a_start a + int idx, r)) (zip [0..<length rs] rs))"

subsection \<open>The outcome log\<close>

datatype status = Success | Failed

record outcome =
  o_row :: int
  o_status :: status
  o_message :: string

datatype log_line = Header | Rec outcome

text \<open>
  The log file as a list of lines. \<open>on_disk\<close> holds the lines that are in the file,
  \<open>pending\<close> the lines the program has handed to the file object and that are still
  in its buffer. The file is opened with the default buffering and the program never
  asks for a flush: when a line is written, the file object alone decides how many of
  the pending lines it writes through. That decision is the component \<open>spill\<close>, a
  parameter of the run: from the lines in the file and the lines pending after the write
  it gives the number of pending lines written through (all of them if the number is
  larger). Closing the file writes what is pending.
\<close>

type_synonym buffering = "log_line list \<Rightarrow> log_line list \<Rightarrow> nat"

record out_file =
  on_disk :: "log_line list"
  pending :: "log_line list"
  spill :: buffering

definition write_line :: "log_line \<Rightarrow> out_file \<Rightarrow> out_file" where
  "write_line l f =
     (let p = pending f @ [l];
          k = min (spill f (on_disk f) p) (length p)
      in f \<lparr> on_disk := on_disk f @ take k p, pending := drop k p \<rparr>)"

definition close_file :: "out_file \<Rightarrow> out_file" where
  "close_file f = f \<lparr> on_disk := on_disk f @ pending f, pending := [] \<rparr>"

definition written :: "out_file \<Rightarrow> log_line list" where
  "written f = on_disk f @ pending f"

text \<open>Lines 110 to 114. The file at startup is \<open>None\<close> when it does not exist;
  \<open>buf\<close> is the buffering of the file object.\<close>

definition open_out :: "buffering \<Rightarrow> log_line list option \<Rightarrow> out_file" where
  "open_out buf file0 =
     (let write_header = (file0 = None);
          out_f = \<lparr> on_disk = (case file0 of None \<Rightarrow> [] | Some ls \<Rightarrow> ls), pending = [],
                    spill = buf \<rparr>
      in if write_header then write_line Header out_f else out_f)"

text \<open>Lines 106 to 108, over the lines after the one the reader takes as the header.\<close>

fun success_rows :: "log_line list \<Rightarrow> int list" where
  "success_rows [] = []"
| "success_rows (Header # ls) = success_rows ls"
| "success_rows (Rec r # ls) =
     (if o_status r = Success then o_row r # success_rows ls else success_rows ls)"

fun third_cell :: "log_line \<Rightarrow> string" where
  "third_cell Header = ''message''"
| "third_cell (Rec r) = o_message r"

text \<open>
  The reader takes the first line of the file as the field names. When that line is a
  record (a file that began without the header), the only cell of it that can be named
  \<^verbatim>\<open>status\<close> is its message, and no cell is named \<^verbatim>\<open>row\<close>: the first later
  line whose third cell is \<^verbatim>\<open>success\<close> then raises on \<^verbatim>\<open>r["row"]\<close>, and without
  such a line nothing is collected.
\<close>

fun read_processed :: "log_line list \<Rightarrow> exn + int list" where
  "read_processed [] = Inr []"
| "read_processed (Header # ls) = Inr (success_rows ls)"
| "read_processed (Rec h # ls) =
     (if o_message h = ''status'' \<and> ''success'' \<in> set (map third_cell ls)
      then Inl (KeyError ''row'') else Inr [])"

definition load_processed :: "bool \<Rightarrow> log_line list option \<Rightarrow> exn + int list" where
  "load_processed resume file0 =
     (case file0 of
        None \<Rightarrow> Inr []
      | Some ls \<Rightarrow> if resume then read_processed ls else Inr [])"

subsection \<open>One row\<close>

record 'b run_state =
  out :: out_file
  drv :: "'b driver"
  successes :: nat
  fails :: nat

definition log_outcome :: "int \<Rightarrow> status \<Rightarrow> string \<Rightarrow> 'b run_state \<Rightarrow> 'b run_state" where
  "log_outcome n s m st =
     st \<lparr> out := write_line (Rec \<lparr> o_row = n, o_status = s, o_message = m \<rparr>) (out st) \<rparr>"

text \<open>Line 133.\<close>

definition row_dict :: "row \<Rightarrow> row" where
  "row_dict r = (\<lambda>k. case r k of Some PNaN \<Rightarrow> Some PNone | v \<Rightarrow> v)"

text \<open>Lines 145 to 147.\<close>

definition fill_value :: "row \<Rightarrow> string \<Rightarrow> FieldRule \<Rightarrow> pyval" where
  "fill_value rd col rule =
     (let val = row_get rd col in
      if val = PNone \<or> val = PStr []
      then (case default rule of None \<Rightarrow> val | Some dflt \<Rightarrow> PStr dflt)
      else val)"

fun fill_fields ::
  "('b, 'e) surface \<Rightarrow> row \<Rightarrow> (string \<times> FieldRule) list \<Rightarrow> (unit, 'b) act" where
  "fill_fields sf rd [] d = (Inr (), d)"
| "fill_fields sf rd ((col, rule) # rest) d =
     (case set_field sf rule (fill_value rd col rule) d of
        (Inl e, d') \<Rightarrow> (Inl e, d')
      | (Inr u, d') \<Rightarrow> fill_fields sf rd rest d')"

text \<open>Lines 154 to 159. The dictionary is empty, and so false, when it has no key.\<close>

definition truthy_str :: "string option \<Rightarrow> bool" where
  "truthy_str v = (case v of None \<Rightarrow> False | Some s \<Rightarrow> s \<noteq> [])"

definition await_success :: "('b, 'e) surface \<Rightarrow> success_check option \<Rightarrow> (unit, 'b) act" where
  "await_success sf sc_opt =
     (case sc_opt of
        None \<Rightarrow> return ()
      | Some sc \<Rightarrow>
          if sc_selector sc = None \<and> sc_text_contains sc = None then return ()
          else
            and_then
              (if truthy_str (sc_selector sc)
               then and_then (subscript (sc_selector sc) ''selector'')
                      (\<lambda>s. call_op (Wait_visible s) (sf_wait_visible sf s))
               else return ())
              (\<lambda>_. if truthy_str (sc_text_contains sc)
                   then and_then (subscript (sc_selector sc) ''selector'')
                          (\<lambda>s. and_then (subscript (sc_text_contains sc) ''text_contains'')
                                 (\<lambda>t. call_op (Wait_text s t) (sf_wait_text sf s t)))
                   else return ()))"

text \<open>Lines 142 to 159: the body of the inner \<^verbatim>\<open>try\<close>, before the success record.\<close>

definition submit :: "('b, 'e) surface \<Rightarrow> config \<Rightarrow> (unit, 'b) act" where
  "submit sf cfg =
     and_then (subscript (cfg_submit_selector cfg) ''submit_selector'')
       (\<lambda>s. and_then (call_op (Find_element s) (sf_find_element sf s))
              (\<lambda>elem. and_then (call_op (Click s) (sf_click sf elem))
                        (\<lambda>_. await_success sf (cfg_success_check cfg))))"

definition attempt :: "('b, 'e) surface \<Rightarrow> config \<Rightarrow> bool \<Rightarrow> row \<Rightarrow> (unit, 'b) act" where
  "attempt sf cfg dry_run rd =
     and_then (subscript (cfg_url cfg) ''url'')
       (\<lambda>u. and_then (call_op (Get u) (sf_get sf u))
              (\<lambda>_. and_then (fill_fields sf rd (cfg_fields cfg))
                     (\<lambda>_. if dry_run then return () else submit sf cfg)))"

text \<open>
  The two \<^verbatim>\<open>except\<close> clauses of lines 162 to 167: the message is the class name
  after \<^verbatim>\<open>form error: \<close> for the two exceptions of the first clause, and \<^verbatim>\<open>str(e)\<close>
  for every other exception, which for a \<^verbatim>\<open>KeyError\<close> is the \<^verbatim>\<open>repr\<close> of the key.
\<close>

fun failure_message :: "exn \<Rightarrow> string" where
  "failure_message TimeoutException = ''form error: TimeoutException''"
| "failure_message NoSuchElementException = ''form error: NoSuchElementException''"
| "failure_message (KeyError k) = repr_str k"
| "failure_message (ValueError m) = m"
| "failure_message (TypeError m) = m"
| "failure_message (OtherException m) = m"

definition count_success :: "'b run_state \<Rightarrow> 'b run_state" where
  "count_success st = st \<lparr> successes := successes st + 1 \<rparr>"

definition count_fail :: "'b run_state \<Rightarrow> 'b run_state" where
  "count_fail st = st \<lparr> fails := fails st + 1 \<rparr>"

definition attempt_row ::
  "('b, 'e) surface \<Rightarrow> config \<Rightarrow> bool \<Rightarrow> int \<Rightarrow> row \<Rightarrow> 'b run_state \<Rightarrow> 'b run_state" where
  "attempt_row sf cfg dry_run n rd st =
     (case attempt sf cfg dry_run rd (drv st) of
        (Inr u, d) \<Rightarrow> count_success (log_outcome n Success [] (st \<lparr> drv := d \<rparr>))
      | (Inl e, d) \<Rightarrow> count_fail (log_outcome n Failed (failure_message e) (st \<lparr> drv := d \<rparr>)))"

text \<open>
  The body of the loop over the rows (lines 128 to 167). The first component of the
  result is the exception that leaves the loop, if any: \<^verbatim>\<open>validate_row\<close> is called
  outside the inner \<^verbatim>\<open>try\<close>.
\<close>

definition process_row ::
  "('b, 'e) surface \<Rightarrow> (string \<Rightarrow> string \<Rightarrow> bool) \<Rightarrow> config \<Rightarrow> bool \<Rightarrow> int list \<Rightarrow>
     int \<times> row \<Rightarrow> 'b run_state \<Rightarrow> exn option \<times> 'b run_state" where
  "process_row sf fullmatch cfg dry_run processed x st =
     (case x of (n, r) \<Rightarrow>
        if n \<in> set processed
        then (None, log_outcome n Success ''skipped (resume)'' st)
        else
          (let rd = row_dict r in
           case validate_row fullmatch rd (cfg_fields cfg) of
             Inl e \<Rightarrow> (Some e, st)
           | Inr None \<Rightarrow> (None, attempt_row sf cfg dry_run n rd st)
           | Inr (Some err) \<Rightarrow>
               if err \<noteq> []
               then (None, count_fail (log_outcome n Failed err st))
               else (None, attempt_row sf cfg dry_run n rd st)))"

fun run_loop ::
  "('b, 'e) surface \<Rightarrow> (string \<Rightarrow> string \<Rightarrow> bool) \<Rightarrow> config \<Rightarrow> bool \<Rightarrow> int list \<Rightarrow>
     (int \<times> row) list \<Rightarrow> 'b run_state \<Rightarrow> exn option \<times> 'b run_state" where
  "run_loop sf fullmatch cfg dry_run processed [] st = (None, st)"
| "run_loop sf fullmatch cfg dry_run processed (x # xs) st =
     (case process_row sf fullmatch cfg dry_run processed x st of
        (Some e, st') \<Rightarrow> (Some e, st')
      | (None, st') \<Rightarrow> run_loop sf fullmatch cfg dry_run processed xs st')"

subsection \<open>The whole program\<close>

text \<open>
  How \<^verbatim>\<open>main\<close> ends: it returns an exit code, or an exception leaves it. The log is
  \<open>None\<close> when the program ended before opening it.
\<close>

datatype ending = Returned int | Raised exn

record 'b run_result =
  ending :: ending
  log :: "out_file option"
  final :: "'b run_state option"

text \<open>The \<^verbatim>\<open>finally\<close> clause of lines 170 to 172.\<close>

definition run_finally :: "'b run_state \<Rightarrow> 'b run_state" where
  "run_finally st =
     st \<lparr> out := close_file (out st),
          drv := (drv st) \<lparr> calls := calls (drv st) @ [Quit] \<rparr> \<rparr>"

text \<open>The state in which the loop starts: the log just opened, a fresh driver on the
  browser \<open>b\<close>, both counters at zero (lines 110 to 124).\<close>

definition start_state :: "buffering \<Rightarrow> 'b \<Rightarrow> log_line list option \<Rightarrow> 'b run_state" where
  "start_state buf b file0 =
     \<lparr> out = open_out buf file0, drv = \<lparr> browser = b, calls = [] \<rparr>,
       successes = 0, fails = 0 \<rparr>"

text \<open>
  \<open>launch\<close> is the browser \<^verbatim>\<open>launch_browser\<close> returns, or \<open>None\<close> when it raises
  \<^verbatim>\<open>WebDriverException\<close>; \<open>df\<close> is the table \<^verbatim>\<open>read_table\<close> returns, \<open>file0\<close>
  the log file at startup and \<open>buf\<close> the buffering of the file object.
\<close>

definition main ::
  "('b, 'e) surface \<Rightarrow> (string \<Rightarrow> string \<Rightarrow> bool) \<Rightarrow> buffering \<Rightarrow> 'b option \<Rightarrow> args \<Rightarrow>
     raw_config \<Rightarrow> row list \<Rightarrow> log_line list option \<Rightarrow> 'b run_result" where
  "main sf fullmatch buf launch a raw df file0 =
     (case load_mapping raw of
        Inl e \<Rightarrow> \<lparr> ending = Raised e, log = None, final = None \<rparr>
      | Inr cfg \<Rightarrow>
          let rows = numbered_rows a df in
          (case load_processed (a_resume a) file0 of
             Inl e \<Rightarrow> \<lparr> ending = Raised e, log = None, final = None \<rparr>
           | Inr processed \<Rightarrow>
               (case launch of
                  None \<Rightarrow> \<lparr> ending = Returned 2, log = Some (open_out buf file0),
                            final = None \<rparr>
                | Some b \<Rightarrow>
                    (case run_loop sf fullmatch cfg (a_dry_run a) processed rows
                            (start_state buf b file0) of
                       (None, st) \<Rightarrow>
                         \<lparr> ending = Returned 0, log = Some (out (run_finally st)),
                           final = Some (run_finally st) \<rparr>
                     | (Some e, st) \<Rightarrow>
                         \<lparr> ending = Raised e, log = Some (out (run_finally st)),
                           final = Some (run_finally st) \<rparr>))))"

section \<open>A small browser and a small matcher\<close>

text \<open>
  Concrete parameters on which the theorems below are exercised. The browser is a single
  checkbox: its state is whether the box is checked, every element is found, a click
  toggles the box and every other operation succeeds without effect. The matcher accepts
  a text exactly when it equals the pattern.
\<close>

definition checkbox_page :: "(bool, unit) surface" where
  "checkbox_page =
     \<lparr> sf_get = (\<lambda>u b. (Inr (), b)),
       sf_find_element = (\<lambda>s b. (Inr (), b)),
       sf_clear = (\<lambda>e b. (Inr (), b)),
       sf_send_keys = (\<lambda>e t b. (Inr (), b)),
       sf_select_by_value = (\<lambda>e t b. (Inr (), b)),
       sf_is_selected = (\<lambda>e b. (Inr b, b)),
       sf_click = (\<lambda>e b. (Inr (), \<not> b)),
       sf_wait_visible = (\<lambda>s b. (Inr (), b)),
       sf_wait_text = (\<lambda>s t b. (Inr (), b)) \<rparr>"

definition literal_match :: "string \<Rightarrow> string \<Rightarrow> bool" where
  "literal_match p s = (p = s)"

definition plain_rule :: "string \<Rightarrow> FieldRule" where
  "plain_rule s =
     \<lparr> selector = s, ftype = ''input'', required = False, default = None,
       validators = None \<rparr>"

definition regex_validator :: "string \<Rightarrow> validator" where
  "regex_validator p =
     \<lparr> vtype = Some ''regex'', pattern = Some p, vvalues = None, message = None \<rparr>"

definition enum_validator :: "string list \<Rightarrow> validator" where
  "enum_validator vs =
     \<lparr> vtype = Some ''enum'', pattern = None, vvalues = Some (map PStr vs), message = None \<rparr>"

definition two_field_config :: config where
  "two_field_config =
     \<lparr> cfg_url = Some ''http://form'', cfg_submit_selector = Some ''#go'',
       cfg_success_check = None,
       cfg_fields = [(''email'', plain_rule ''#email''),
                     (''name'', (plain_rule ''#name'') \<lparr> required := True \<rparr>)] \<rparr>"

definition prior_log :: "log_line list" where
  "prior_log =
     [Header,
      Rec \<lparr> o_row = 6, o_status = Failed, o_message = ''form error: TimeoutException'' \<rparr>,
      Rec \<lparr> o_row = 7, o_status = Success, o_message = [] \<rparr>]"

definition text_only_config :: config where
  "text_only_config =
     \<lparr> cfg_url = Some ''http://form'', cfg_submit_selector = Some ''#go'',
       cfg_success_check = Some \<lparr> sc_selector = None, sc_text_contains = Some ''Thank you'' \<rparr>,
       cfg_fields = [(''email'', plain_rule ''#email'')] \<rparr>"

definition agree_rule :: FieldRule where
  "agree_rule = (plain_rule ''#agree'') \<lparr> ftype := ''checkbox'' \<rparr>"

definition raw_field :: "string \<Rightarrow> raw_rule" where
  "raw_field s =
     \<lparr> raw_selector = Some s, raw_type = None, raw_required = None, raw_default = None,
       raw_validators = None, raw_unknown = [] \<rparr>"

definition raw_two_field_config :: raw_config where
  "raw_two_field_config =
     \<lparr> raw_url = Some ''http://form'', raw_submit_selector = Some ''#go'',
       raw_success_check = None,
       raw_fields = Some [(''email'', raw_field ''#email''),
                          (''name'', (raw_field ''#name'') \<lparr> raw_required := Some True \<rparr>)] \<rparr>"

definition ann :: row where
  "ann = [''email'' \<mapsto> PStr ''ann@x.org'', ''name'' \<mapsto> PStr ''Ann'']"

definition bob :: row where
  "bob = [''email'' \<mapsto> PStr ''bob@x.org'', ''name'' \<mapsto> PStr ''Bob'']"

definition seven_rows :: "row list" where
  "seven_rows = [bob, bob, bob, bob, bob, ann, bob]"

definition resume_from_six :: args where
  "resume_from_six =
     \<lparr> a_start = 6, a_end = None, a_filter = None, a_dry_run = False, a_resume = True \<rparr>"

definition carol :: row where
  "carol = [''name'' \<mapsto> PStr ''Carol'', ''country'' \<mapsto> PStr ''CA'']"

definition dave :: row where
  "dave = [''name'' \<mapsto> PStr ''Dave'', ''country'' \<mapsto> PStr ''US'']"

definition erin :: row where
  "erin = [''name'' \<mapsto> PStr ''Erin'', ''country'' \<mapsto> PStr ''US'']"

definition us_only :: "row \<Rightarrow> bool" where
  "us_only r = (r ''country'' = Some (PStr ''US''))"

definition whole_table :: args where
  "whole_table =
     \<lparr> a_start = 1, a_end = None, a_filter = None, a_dry_run = False, a_resume = False \<rparr>"

text \<open>A file object whose buffer never fills during the run, as for a short log: no
  line is written through before the file is closed.\<close>

definition no_spill :: buffering where
  "no_spill = (\<lambda>disk p. 0)"


definition empty_text_config :: config where
  "empty_text_config =
     \<lparr> cfg_url = Some ''http://form'', cfg_submit_selector = Some ''#go'',
       cfg_success_check = Some \<lparr> sc_selector = None, sc_text_contains = Some [] \<rparr>,
       cfg_fields = [(''email'', plain_rule ''#email'')] \<rparr>"

definition raw_radio_config :: raw_config where
  "raw_radio_config =
     \<lparr> raw_url = Some ''http://form'', raw_submit_selector = Some ''#go'',
       raw_success_check = None,
       raw_fields = Some [(''email'', raw_field ''#email''),
                          (''plan'', (raw_field ''#plan'') \<lparr> raw_type := Some ''radio'' \<rparr>)] \<rparr>"

definition radio_config :: config where
  "radio_config =
     \<lparr> cfg_url = Some ''http://form'', cfg_submit_selector = Some ''#go'',
       cfg_success_check = None,
       cfg_fields = [(''email'', plain_rule ''#email''),
                     (''plan'', (plain_rule ''#plan'') \<lparr> ftype := ''radio'' \<rparr>)] \<rparr>"

definition no_pattern :: validator where
  "no_pattern = \<lparr> vtype = Some ''regex'', pattern = None, vvalues = None, message = None \<rparr>"

definition raw_no_pattern_config :: raw_config where
  "raw_no_pattern_config =
     \<lparr> raw_url = Some ''http://form'', raw_submit_selector = Some ''#go'',
       raw_success_check = None,
       raw_fields = Some [(''email'', (raw_field ''#email'')
                                        \<lparr> raw_validators := Some [no_pattern] \<rparr>)] \<rparr>"

definition no_pattern_config :: config where
  "no_pattern_config =
     \<lparr> cfg_url = Some ''http://form'', cfg_submit_selector = Some ''#go'',
       cfg_success_check = None,
       cfg_fields = [(''email'', (plain_rule ''#email'') \<lparr> validators := Some [no_pattern] \<rparr>)] \<rparr>"


section \<open>Properties of row validation\<close>

lemmas model_defs =
  check_field_def check_validator_def row_get_def cell_missing_def repr_list_def repr_str_def
  repr_char_def squote_def dquote_def backslash_def Let_def row_dict_def start_state_def
  open_out_def write_line_def count_fail_def count_success_def log_outcome_def
  load_processed_def process_row_def attempt_row_def attempt_def and_then_def subscript_def
  return_def raise_def call_op_def set_field_def submit_def await_success_def fill_value_def
  truthy_str_def no_spill_def

lemmas run_defs =
  model_defs main_def load_mapping_def make_FieldRule_def numbered_rows_def select_rows_def
  py_slice_def clamp_index_def run_finally_def close_file_def written_def













section \<open>Properties of the enum validator\<close>

text \<open>
  Claim C2. The claim says that an empty cell is never run through a validator. The code
  guards the regex validator with \<^verbatim>\<open>val is not None and str(val) != ""\<close> but the enum
  validator with \<^verbatim>\<open>val is not None\<close> only. At a row whose \<^verbatim>\<open>country\<close> cell is the empty
  string, a field that is not required and has an enum validator is rejected with the
  enum validator's message, whatever the regex engine; the same cell under a regex
  validator is accepted without being matched.
\<close>

theorem enum_validator_sees_empty_string:
  "validate_row fm [''country'' \<mapsto> PStr []]
     [(''country'', (plain_rule ''#country'')
         \<lparr> validators := Some [enum_validator [''US'', ''CA'']] \<rparr>)]
     = Inr (Some (''country must be one of ['' @ [squote] @ ''US'' @ [squote] @ '', ''
                    @ [squote] @ ''CA'' @ [squote] @ '']''))
   \<and> validate_row fm [''country'' \<mapsto> PStr []]
     [(''country'', (plain_rule ''#country'')
         \<lparr> validators := Some [regex_validator ''[A-Z]+''] \<rparr>)]
     = Inr None"
  by (simp add: model_defs plain_rule_def enum_validator_def regex_validator_def)

section \<open>Properties of resume\<close>





section \<open>Properties of the field setter\<close>

lemma coerce_truthy_examples:
  "coerce_truthy (PStr ''YES'')" "coerce_truthy (PStr ''Yes'')" "coerce_truthy (PStr ''yes'')"
  "coerce_truthy (PStr ''1'')" "coerce_truthy (PStr '' on '')"
  "\<not> coerce_truthy (PStr ''0'')" "\<not> coerce_truthy (PStr [])" "\<not> coerce_truthy (PStr ''no'')"
  "\<not> coerce_truthy PNone" "\<not> coerce_truthy PNaN"
  by code_simp+

text \<open>
  Claim C8. Setting a checkbox is idempotent. The checkbox is found under the rule's
  selector, reading its state does not change the browser, and a click toggles it (the
  hypotheses, on the browser \<open>b\<close> before and \<open>b'\<close> after a click). Then the first
  \<^verbatim>\<open>set_field\<close> clicks exactly when the state \<open>c\<close> differs from the coerced value and
  leaves the box in the coerced state; a second \<^verbatim>\<open>set_field\<close> with the same value finds
  the element, reads its state and makes no click, and the browser stays as it was.
\<close>

theorem checkbox_set_is_idempotent:
  assumes "ftype rule = ''checkbox''"
    and "sf_find_element sf (selector rule) b = (Inr e, b)"
    and "sf_is_selected sf e b = (Inr c, b)"
    and "sf_click sf e b = (Inr (), b')"
    and "sf_find_element sf (selector rule) b' = (Inr e, b')"
    and "sf_is_selected sf e b' = (Inr (\<not> c), b')"
  shows "\<exists>d1. set_field sf rule v \<lparr> browser = b, calls = cs \<rparr> = (Inr (), d1)
           \<and> calls d1 = cs @ [Find_element (selector rule), Is_selected (selector rule)]
                           @ (if c = coerce_truthy v then [] else [Click (selector rule)])
           \<and> sf_is_selected sf e (browser d1) = (Inr (coerce_truthy v), browser d1)
           \<and> set_field sf rule v d1
               = (Inr (), \<lparr> browser = browser d1,
                            calls = calls d1 @ [Find_element (selector rule),
                                                Is_selected (selector rule)] \<rparr>)"
proof (cases "c = coerce_truthy v")
  case True
  then show ?thesis
    using assms(1-3)
    by (simp add: set_field_def and_then_def call_op_def return_def Let_def)
next
  case False
  then show ?thesis
    using assms
    by (auto simp add: set_field_def and_then_def call_op_def return_def Let_def)
qed

text \<open>The theorem on the one-checkbox browser, unchecked at first, with the value
  \<^verbatim>\<open>Yes\<close>: one click the first time, none the second.\<close>

theorem checkbox_set_is_idempotent_witness:
  "set_field checkbox_page agree_rule (PStr ''Yes'') \<lparr> browser = False, calls = [] \<rparr>
     = (Inr (), \<lparr> browser = True,
                  calls = [Find_element ''#agree'', Is_selected ''#agree'', Click ''#agree''] \<rparr>)
   \<and> set_field checkbox_page agree_rule (PStr ''Yes'')
       \<lparr> browser = True,
         calls = [Find_element ''#agree'', Is_selected ''#agree'', Click ''#agree''] \<rparr>
     = (Inr (), \<lparr> browser = True,
                  calls = [Find_element ''#agree'', Is_selected ''#agree'', Click ''#agree'',
                           Find_element ''#agree'', Is_selected ''#agree''] \<rparr>)"
proof -
  have kind: "ftype agree_rule = ''checkbox''"
    by (simp add: agree_rule_def plain_rule_def)
  have found: "sf_find_element checkbox_page (selector agree_rule) False = (Inr (), False)"
    and box_off: "sf_is_selected checkbox_page () False = (Inr False, False)"
    and click: "sf_click checkbox_page () False = (Inr (), True)"
    and found': "sf_find_element checkbox_page (selector agree_rule) True = (Inr (), True)"
    and box_on: "sf_is_selected checkbox_page () True = (Inr (\<not> False), True)"
    by (simp_all add: checkbox_page_def)
  from checkbox_set_is_idempotent [OF kind found box_off click found' box_on,
      of "PStr ''Yes''" "[]"]
  obtain d1 where
    first: "set_field checkbox_page agree_rule (PStr ''Yes'') \<lparr> browser = False, calls = [] \<rparr>
      = (Inr (), d1)"
    and second: "set_field checkbox_page agree_rule (PStr ''Yes'') d1
      = (Inr (), \<lparr> browser = browser d1,
                   calls = calls d1 @ [Find_element (selector agree_rule),
                                       Is_selected (selector agree_rule)] \<rparr>)"
    by blast
  have d1: "d1 = \<lparr> browser = True,
      calls = [Find_element ''#agree'', Is_selected ''#agree'', Click ''#agree''] \<rparr>"
    using first
    by (simp add: model_defs agree_rule_def plain_rule_def checkbox_page_def
        coerce_truthy_examples)
  show ?thesis
    using first second unfolding d1 by (simp add: agree_rule_def plain_rule_def)
qed

lemma set_field_unsupported:
  assumes "ftype rule \<noteq> ''input''" "ftype rule \<noteq> ''select''" "ftype rule \<noteq> ''checkbox''"
    and "sf_find_element sf (selector rule) (browser d) = (Inr e, b)"
  shows "set_field sf rule val d
           = (Inl (ValueError (''Unsupported field type: '' @ ftype rule)),
              \<lparr> browser = b, calls = calls d @ [Find_element (selector rule)] \<rparr>)"
  using assms by (simp add: set_field_def and_then_def call_op_def raise_def)

text \<open>
  Claim C3, as stated, at a concrete input: a rule whose type is \<^verbatim>\<open>radio\<close> is
  constructed without error, and the mapping that holds it loads.
\<close>

theorem unknown_kind_rejected_counterexample:
  "make_FieldRule ((raw_field ''#plan'') \<lparr> raw_type := Some ''radio'' \<rparr>)
     = Inr ((plain_rule ''#plan'') \<lparr> ftype := ''radio'' \<rparr>)
   \<and> load_mapping \<lparr> raw_url = Some ''http://form'', raw_submit_selector = Some ''#go'',
                    raw_success_check = None,
                    raw_fields = Some [(''plan'', (raw_field ''#plan'')
                                                   \<lparr> raw_type := Some ''radio'' \<rparr>)] \<rparr>
     = Inr \<lparr> cfg_url = Some ''http://form'', cfg_submit_selector = Some ''#go'',
             cfg_success_check = None,
             cfg_fields = [(''plan'', (plain_rule ''#plan'') \<lparr> ftype := ''radio'' \<rparr>)] \<rparr>"
  by (simp add: make_FieldRule_def load_mapping_def raw_field_def plain_rule_def)

lemma load_fields_well_formed:
  assumes "\<forall>kv \<in> set kvs. raw_unknown (snd kv) = [] \<and> raw_selector (snd kv) \<noteq> None"
  shows "\<exists>fs. load_fields kvs = Inr fs
           \<and> list_all2 (\<lambda>kv f. fst f = fst kv
                              \<and> raw_selector (snd kv) = Some (selector (snd f))
                              \<and> ftype (snd f) = (case raw_type (snd kv) of
                                                   None \<Rightarrow> ''input'' | Some t \<Rightarrow> t))
                 kvs fs"
  using assms
proof (induction kvs)
  case Nil
  then show ?case by simp
next
  case (Cons kv kvs)
  obtain k v where kv: "kv = (k, v)" by (cases kv)
  from Cons.prems kv obtain s where v: "raw_unknown v = []" "raw_selector v = Some s"
    by auto
  from Cons obtain fs where fs: "load_fields kvs = Inr fs"
    "list_all2 (\<lambda>kv f. fst f = fst kv
                      \<and> raw_selector (snd kv) = Some (selector (snd f))
                      \<and> ftype (snd f) = (case raw_type (snd kv) of
                                           None \<Rightarrow> ''input'' | Some t \<Rightarrow> t))
       kvs fs"
    by auto
  show ?case
    using kv v fs by (simp add: make_FieldRule_def)
qed

lemma fill_fields_append:
  "fill_fields sf rd (pre @ rest) d =
     (case fill_fields sf rd pre d of
        (Inl e, d') \<Rightarrow> (Inl e, d')
      | (Inr u, d') \<Rightarrow> fill_fields sf rd rest d')"
  by (induction pre arbitrary: d) (auto split: prod.splits sum.splits)

lemma attempt_unsupported:
  assumes "cfg_fields cfg = pre @ (col, rule) # post"
    and "ftype rule \<notin> {''input'', ''select'', ''checkbox''}"
    and "attempt sf (cfg \<lparr> cfg_fields := pre \<rparr>) True rd d = (Inr (), d1)"
    and "sf_find_element sf (selector rule) (browser d1) = (Inr e, b)"
  shows "attempt sf cfg dry_run rd d
           = (Inl (ValueError (''Unsupported field type: '' @ ftype rule)),
              \<lparr> browser = b, calls = calls d1 @ [Find_element (selector rule)] \<rparr>)"
proof -
  from assms(3) obtain u d0 where
    url: "cfg_url cfg = Some u"
    and nav: "call_op (Get u) (sf_get sf u) d = (Inr (), d0)"
    and filled: "fill_fields sf rd pre d0 = (Inr (), d1)"
    by (auto simp add: attempt_def and_then_def subscript_def raise_def return_def
        split: option.splits prod.splits sum.splits)
  have "set_field sf rule (fill_value rd col rule) d1
      = (Inl (ValueError (''Unsupported field type: '' @ ftype rule)),
         \<lparr> browser = b, calls = calls d1 @ [Find_element (selector rule)] \<rparr>)"
    using assms(2,4) by (intro set_field_unsupported) auto
  then have "fill_fields sf rd (pre @ (col, rule) # post) d0
      = (Inl (ValueError (''Unsupported field type: '' @ ftype rule)),
         \<lparr> browser = b, calls = calls d1 @ [Find_element (selector rule)] \<rparr>)"
    using filled by (simp add: fill_fields_append)
  then show ?thesis
    using url nav assms(1)
    by (simp add: attempt_def and_then_def subscript_def return_def)
qed

text \<open>
  Claim C3, amended. A mapping whose entries all have a selector and no unknown key
  loads, whatever the types of its rules: no type is rejected when the rules are
  constructed, each rule keeps the type given, and \<^verbatim>\<open>input\<close> when the type is omitted.
  A type other than \<^verbatim>\<open>input\<close>, \<^verbatim>\<open>select\<close> and \<^verbatim>\<open>checkbox\<close> is found only when the
  field is set during a row. For a row that is not skipped and is valid, once the page is
  loaded, the fields declared before the rule are set (the hypothesis on the dry run of
  the mapping cut down to those fields, which leaves the driver \<open>d1\<close>) and the element
  of the rule is located, \<^verbatim>\<open>set_field\<close> raises \<^verbatim>\<open>ValueError\<close>; the error is caught at
  row scope: the row is logged failed with \<^verbatim>\<open>Unsupported field type: <type>\<close>, no
  further call is made on the driver, and no exception leaves the row, so the loop goes
  on with the next row.
\<close>

theorem field_type_checked_when_set:
  assumes "raw_fields raw = Some kvs"
    and "\<forall>kv \<in> set kvs. raw_unknown (snd kv) = [] \<and> raw_selector (snd kv) \<noteq> None"
  shows "\<exists>cfg. load_mapping raw = Inr cfg
           \<and> list_all2 (\<lambda>kv f. fst f = fst kv
                              \<and> raw_selector (snd kv) = Some (selector (snd f))
                              \<and> ftype (snd f) = (case raw_type (snd kv) of
                                                   None \<Rightarrow> ''input'' | Some t \<Rightarrow> t))
                 kvs (cfg_fields cfg)
           \<and> (cfg_fields cfg = pre @ (col, rule) # post
               \<and> ftype rule \<notin> {''input'', ''select'', ''checkbox''}
               \<and> n \<notin> set processed
               \<and> validate_row fm (row_dict r) (cfg_fields cfg) = Inr None
               \<and> attempt sf (cfg \<lparr> cfg_fields := pre \<rparr>) True (row_dict r) (drv st)
                   = (Inr (), d1)
               \<and> sf_find_element sf (selector rule) (browser d1) = (Inr e, b)
               \<longrightarrow> process_row sf fm cfg dry_run processed (n, r) st
                     = (None,
                        count_fail
                          (log_outcome n Failed (''Unsupported field type: '' @ ftype rule)
                             (st \<lparr> drv := \<lparr> browser = b,
                                            calls = calls d1
                                                    @ [Find_element (selector rule)] \<rparr> \<rparr>))))"
proof -
  from load_fields_well_formed [OF assms(2)] obtain fs where
    fs: "load_fields kvs = Inr fs"
    and same: "list_all2 (\<lambda>kv f. fst f = fst kv
                              \<and> raw_selector (snd kv) = Some (selector (snd f))
                              \<and> ftype (snd f) = (case raw_type (snd kv) of
                                                   None \<Rightarrow> ''input'' | Some t \<Rightarrow> t))
                 kvs fs"
    by blast
  let ?cfg = "\<lparr> cfg_url = raw_url raw, cfg_submit_selector = raw_submit_selector raw,
                cfg_success_check = raw_success_check raw, cfg_fields = fs \<rparr>"
  have loaded: "load_mapping raw = Inr ?cfg"
    using assms(1) fs by (simp add: load_mapping_def)
  have row: "process_row sf fm ?cfg dry_run processed (n, r) st
      = (None,
         count_fail
           (log_outcome n Failed (''Unsupported field type: '' @ ftype rule)
              (st \<lparr> drv := \<lparr> browser = b,
                             calls = calls d1 @ [Find_element (selector rule)] \<rparr> \<rparr>)))"
    if fields: "cfg_fields ?cfg = pre @ (col, rule) # post"
      and unknown: "ftype rule \<notin> {''input'', ''select'', ''checkbox''}"
      and fresh: "n \<notin> set processed"
      and valid: "validate_row fm (row_dict r) (cfg_fields ?cfg) = Inr None"
      and before: "attempt sf (?cfg \<lparr> cfg_fields := pre \<rparr>) True (row_dict r) (drv st)
          = (Inr (), d1)"
      and found: "sf_find_element sf (selector rule) (browser d1) = (Inr e, b)"
  proof -
    have "attempt sf ?cfg dry_run (row_dict r) (drv st)
        = (Inl (ValueError (''Unsupported field type: '' @ ftype rule)),
           \<lparr> browser = b, calls = calls d1 @ [Find_element (selector rule)] \<rparr>)"
      using fields unknown before found by (rule attempt_unsupported)
    then have "attempt_row sf ?cfg dry_run n (row_dict r) st
        = count_fail
            (log_outcome n Failed (''Unsupported field type: '' @ ftype rule)
               (st \<lparr> drv := \<lparr> browser = b,
                              calls = calls d1 @ [Find_element (selector rule)] \<rparr> \<rparr>))"
      by (simp add: attempt_row_def)
    then show ?thesis
      using fresh valid by (simp add: process_row_def Let_def)
  qed
  have caught: "cfg_fields ?cfg = pre @ (col, rule) # post
      \<and> ftype rule \<notin> {''input'', ''select'', ''checkbox''}
      \<and> n \<notin> set processed
      \<and> validate_row fm (row_dict r) (cfg_fields ?cfg) = Inr None
      \<and> attempt sf (?cfg \<lparr> cfg_fields := pre \<rparr>) True (row_dict r) (drv st) = (Inr (), d1)
      \<and> sf_find_element sf (selector rule) (browser d1) = (Inr e, b)
      \<longrightarrow> process_row sf fm ?cfg dry_run processed (n, r) st
            = (None,
               count_fail
                 (log_outcome n Failed (''Unsupported field type: '' @ ftype rule)
                    (st \<lparr> drv := \<lparr> browser = b,
                                   calls = calls d1 @ [Find_element (selector rule)] \<rparr> \<rparr>)))"
  proof (intro impI, elim conjE)
    assume "cfg_fields ?cfg = pre @ (col, rule) # post"
      and "ftype rule \<notin> {''input'', ''select'', ''checkbox''}"
      and "n \<notin> set processed"
      and "validate_row fm (row_dict r) (cfg_fields ?cfg) = Inr None"
      and "attempt sf (?cfg \<lparr> cfg_fields := pre \<rparr>) True (row_dict r) (drv st) = (Inr (), d1)"
      and "sf_find_element sf (selector rule) (browser d1) = (Inr e, b)"
    then show "process_row sf fm ?cfg dry_run processed (n, r) st
        = (None,
           count_fail
             (log_outcome n Failed (''Unsupported field type: '' @ ftype rule)
                (st \<lparr> drv := \<lparr> browser = b,
                               calls = calls d1 @ [Find_element (selector rule)] \<rparr> \<rparr>)))"
      by (rule row)
  qed
  have kept: "list_all2 (\<lambda>kv f. fst f = fst kv
                              \<and> raw_selector (snd kv) = Some (selector (snd f))
                              \<and> ftype (snd f) = (case raw_type (snd kv) of
                                                   None \<Rightarrow> ''input'' | Some t \<Rightarrow> t))
                 kvs (cfg_fields ?cfg)"
    using same by simp
  show ?thesis
    by (rule exI [of _ ?cfg]) (intro conjI loaded kept caught)
qed

text \<open>
  The theorem at a mapping whose second rule has the type \<^verbatim>\<open>radio\<close>: the mapping
  loads with the type kept, and the row is logged failed once the page is loaded, the
  first field is set and the element of the second is located.
\<close>

theorem field_type_checked_when_set_witness:
  "load_mapping raw_radio_config = Inr radio_config
   \<and> process_row checkbox_page literal_match radio_config False []
       (1, [''email'' \<mapsto> PStr ''a@b.com'', ''plan'' \<mapsto> PStr ''gold''])
       (start_state no_spill False None)
     = (None, \<lparr> out = \<lparr> on_disk = [],
                         pending = [Header, Rec \<lparr> o_row = 1, o_status = Failed,
                                      o_message = ''Unsupported field type: radio'' \<rparr>],
                         spill = no_spill \<rparr>,
                drv = \<lparr> browser = False,
                        calls = [Get ''http://form'', Find_element ''#email'', Clear ''#email'',
                                 Send_keys ''#email'' ''a@b.com'', Find_element ''#plan''] \<rparr>,
                successes = 0, fails = 1 \<rparr>)"
proof -
  let ?r = "[''email'' \<mapsto> PStr ''a@b.com'', ''plan'' \<mapsto> PStr ''gold'']"
  let ?rule = "(plain_rule ''#plan'') \<lparr> ftype := ''radio'' \<rparr>"
  let ?d1 = "\<lparr> browser = False,
      calls = [Get ''http://form'', Find_element ''#email'', Clear ''#email'',
               Send_keys ''#email'' ''a@b.com''] \<rparr>"
  have entries: "raw_fields raw_radio_config
      = Some [(''email'', raw_field ''#email''),
              (''plan'', (raw_field ''#plan'') \<lparr> raw_type := Some ''radio'' \<rparr>)]"
    by (simp add: raw_radio_config_def)
  have well_formed: "\<forall>kv \<in> set [(''email'', raw_field ''#email''),
        (''plan'', (raw_field ''#plan'') \<lparr> raw_type := Some ''radio'' \<rparr>)].
      raw_unknown (snd kv) = [] \<and> raw_selector (snd kv) \<noteq> None"
    by (simp add: raw_field_def)
  have loaded: "load_mapping raw_radio_config = Inr radio_config"
    by (simp add: load_mapping_def make_FieldRule_def raw_radio_config_def raw_field_def
        radio_config_def plain_rule_def)
  have fields: "cfg_fields radio_config
      = [(''email'', plain_rule ''#email'')] @ (''plan'', ?rule) # []"
    by (simp add: radio_config_def)
  have unknown: "ftype ?rule \<notin> {''input'', ''select'', ''checkbox''}"
    by simp
  have fresh: "(1::int) \<notin> set []"
    by simp
  have valid: "validate_row literal_match (row_dict ?r) (cfg_fields radio_config) = Inr None"
    by (simp add: model_defs radio_config_def plain_rule_def)
  have before: "attempt checkbox_page
      (radio_config \<lparr> cfg_fields := [(''email'', plain_rule ''#email'')] \<rparr>) True (row_dict ?r)
      (drv (start_state no_spill False None)) = (Inr (), ?d1)"
    by (simp add: model_defs radio_config_def plain_rule_def checkbox_page_def)
  have found: "sf_find_element checkbox_page (selector ?rule) (browser ?d1) = (Inr (), False)"
    by (simp add: checkbox_page_def)
  from field_type_checked_when_set
    [OF entries well_formed,
      where pre = "[(''email'', plain_rule ''#email'')]" and col = "''plan''" and rule = ?rule
        and post = "[]" and n = 1 and processed = "[]" and fm = literal_match and r = ?r
        and sf = checkbox_page and st = "start_state no_spill False None" and ?d1.0 = ?d1
        and e = "()" and b = False and dry_run = False]
  obtain cfg where
    cfg: "load_mapping raw_radio_config = Inr cfg"
    and row: "cfg_fields cfg = [(''email'', plain_rule ''#email'')] @ (''plan'', ?rule) # []
        \<and> ftype ?rule \<notin> {''input'', ''select'', ''checkbox''}
        \<and> (1::int) \<notin> set []
        \<and> validate_row literal_match (row_dict ?r) (cfg_fields cfg) = Inr None
        \<and> attempt checkbox_page (cfg \<lparr> cfg_fields := [(''email'', plain_rule ''#email'')] \<rparr>)
             True (row_dict ?r) (drv (start_state no_spill False None)) = (Inr (), ?d1)
        \<and> sf_find_element checkbox_page (selector ?rule) (browser ?d1) = (Inr (), False)
        \<longrightarrow> process_row checkbox_page literal_match cfg False [] (1, ?r)
              (start_state no_spill False None)
            = (None,
               count_fail
                 (log_outcome 1 Failed (''Unsupported field type: '' @ ftype ?rule)
                    (start_state no_spill False None
                       \<lparr> drv := \<lparr> browser = False,
                                  calls = calls ?d1 @ [Find_element (selector ?rule)] \<rparr> \<rparr>)))"
    by blast
  have same: "cfg = radio_config"
    using cfg loaded by simp
  have "process_row checkbox_page literal_match radio_config False [] (1, ?r)
      (start_state no_spill False None)
    = (None,
       count_fail
         (log_outcome 1 Failed (''Unsupported field type: '' @ ftype ?rule)
            (start_state no_spill False None
               \<lparr> drv := \<lparr> browser = False,
                          calls = calls ?d1 @ [Find_element (selector ?rule)] \<rparr> \<rparr>)))"
    using row fields unknown fresh valid before found unfolding same by blast
  then show ?thesis
    using loaded by (simp add: model_defs plain_rule_def)
qed

section \<open>Properties of the success check\<close>

lemma attempt_then_await:
  "attempt sf cfg False rd d =
     (case attempt sf (cfg \<lparr> cfg_success_check := None \<rparr>) False rd d of
        (Inl e, d') \<Rightarrow> (Inl e, d')
      | (Inr u, d') \<Rightarrow> await_success sf (cfg_success_check cfg) d')"
  by (simp add: attempt_def submit_def and_then_def subscript_def raise_def return_def
      await_success_def split: prod.splits sum.splits option.splits)

lemma await_text_without_selector:
  assumes "t \<noteq> []"
  shows "await_success sf (Some \<lparr> sc_selector = None, sc_text_contains = Some t \<rparr>) d
           = (Inl (KeyError ''selector''), d)"
  using assms
  by (simp add: await_success_def and_then_def subscript_def raise_def return_def truthy_str_def)

lemma load_mapping_success_check:
  "load_mapping (raw \<lparr> raw_success_check := sc \<rparr>)
     = map_sum id (\<lambda>c. c \<lparr> cfg_success_check := sc \<rparr>) (load_mapping raw)"
  by (simp add: load_mapping_def split: option.splits sum.splits)

text \<open>
  Claim C9, as stated, at a concrete input: the success check has the entry
  \<^verbatim>\<open>text_contains\<close> and no \<^verbatim>\<open>selector\<close>, and the text is the empty string. Line 158
  takes the empty string for no text, the missing key is never looked up, and the row is
  logged success after the submit click.
\<close>

theorem text_check_without_selector_counterexample:
  "cfg_success_check empty_text_config
     = Some \<lparr> sc_selector = None, sc_text_contains = Some [] \<rparr>
   \<and> process_row checkbox_page literal_match empty_text_config False []
       (1, [''email'' \<mapsto> PStr ''a@b.com'']) (start_state no_spill False None)
     = (None, \<lparr> out = \<lparr> on_disk = [],
                         pending = [Header, Rec \<lparr> o_row = 1, o_status = Success,
                                      o_message = [] \<rparr>],
                         spill = no_spill \<rparr>,
                drv = \<lparr> browser = True,
                        calls = [Get ''http://form'', Find_element ''#email'', Clear ''#email'',
                                 Send_keys ''#email'' ''a@b.com'', Find_element ''#go'',
                                 Click ''#go''] \<rparr>,
                successes = 1, fails = 0 \<rparr>)"
  by (simp add: model_defs empty_text_config_def plain_rule_def checkbox_page_def)

text \<open>
  Claim C9, amended. The success check has a non-empty \<^verbatim>\<open>text_contains\<close> and no \<^verbatim>\<open>selector\<close>,
  the run is not a dry run, the row is not skipped and is valid, and navigation, filling
  and the submit click succeed, leaving the driver \<open>d1\<close> (the hypothesis on the same
  mapping without a success check). Then the attempt raises \<^verbatim>\<open>KeyError('selector')\<close>
  with the driver still \<open>d1\<close>, so no wait was started; the row is logged failed with
  the text of the error, \<^verbatim>\<open>'selector'\<close>; and loading the mapping does not look at the
  success check: it fails or succeeds as it does without one.
\<close>

theorem text_check_without_selector:
  assumes "cfg_success_check cfg = Some \<lparr> sc_selector = None, sc_text_contains = Some t \<rparr>"
    and "t \<noteq> []"
    and "n \<notin> set processed"
    and "validate_row fm (row_dict r) (cfg_fields cfg) = Inr None"
    and "attempt sf (cfg \<lparr> cfg_success_check := None \<rparr>) False (row_dict r) (drv st)
           = (Inr (), d1)"
  shows "attempt sf cfg False (row_dict r) (drv st) = (Inl (KeyError ''selector''), d1)
       \<and> process_row sf fm cfg False processed (n, r) st
           = (None, count_fail (log_outcome n Failed (repr_str ''selector'') (st \<lparr> drv := d1 \<rparr>)))
       \<and> load_mapping (raw \<lparr> raw_success_check := cfg_success_check cfg \<rparr>)
           = map_sum id (\<lambda>c. c \<lparr> cfg_success_check := cfg_success_check cfg \<rparr>)
               (load_mapping raw)"
proof -
  have a: "attempt sf cfg False (row_dict r) (drv st) = (Inl (KeyError ''selector''), d1)"
    using assms(1,2,5) by (simp add: attempt_then_await [of sf cfg] await_text_without_selector)
  have "attempt_row sf cfg False n (row_dict r) st
      = count_fail (log_outcome n Failed (repr_str ''selector'') (st \<lparr> drv := d1 \<rparr>))"
    using a by (simp add: attempt_row_def)
  then have "process_row sf fm cfg False processed (n, r) st
      = (None, count_fail (log_outcome n Failed (repr_str ''selector'') (st \<lparr> drv := d1 \<rparr>)))"
    using assms(3,4) by (simp add: process_row_def Let_def)
  with a show ?thesis by (simp add: load_mapping_success_check)
qed

text \<open>The theorem on a mapping whose success check is only
  \<^verbatim>\<open>text_contains: Thank you\<close>: the calls end with the submit click.\<close>

theorem text_check_without_selector_witness:
  "process_row checkbox_page literal_match text_only_config False []
     (1, [''email'' \<mapsto> PStr ''a@b.com'']) (start_state no_spill False None)
   = (None, \<lparr> out = \<lparr> on_disk = [],
                       pending = [Header, Rec \<lparr> o_row = 1, o_status = Failed,
                                    o_message = [squote] @ ''selector'' @ [squote] \<rparr>],
                       spill = no_spill \<rparr>,
              drv = \<lparr> browser = True,
                      calls = [Get ''http://form'', Find_element ''#email'', Clear ''#email'',
                               Send_keys ''#email'' ''a@b.com'', Find_element ''#go'',
                               Click ''#go''] \<rparr>,
              successes = 0, fails = 1 \<rparr>)"
proof -
  let ?r = "[''email'' \<mapsto> PStr ''a@b.com'']"
  let ?d1 = "\<lparr> browser = True,
      calls = [Get ''http://form'', Find_element ''#email'', Clear ''#email'',
               Send_keys ''#email'' ''a@b.com'', Find_element ''#go'', Click ''#go''] \<rparr>"
  have check: "cfg_success_check text_only_config
      = Some \<lparr> sc_selector = None, sc_text_contains = Some ''Thank you'' \<rparr>"
    by (simp add: text_only_config_def)
  have nonempty: "''Thank you'' \<noteq> []"
    by simp
  have fresh: "(1::int) \<notin> set []"
    by simp
  have valid: "validate_row literal_match (row_dict ?r) (cfg_fields text_only_config) = Inr None"
    by (simp add: model_defs text_only_config_def plain_rule_def)
  have submitted: "attempt checkbox_page (text_only_config \<lparr> cfg_success_check := None \<rparr>) False
      (row_dict ?r) (drv (start_state no_spill False None)) = (Inr (), ?d1)"
    by (simp add: model_defs text_only_config_def plain_rule_def checkbox_page_def)
  show ?thesis
    using text_check_without_selector [OF check nonempty fresh valid submitted]
    by (simp add: model_defs)
qed

section \<open>Properties of the outcome log\<close>

lemma written_write_line: "written (write_line l f) = written f @ [l]"
  by (simp add: written_def write_line_def Let_def del: take_append drop_append)

lemma spill_write_line: "spill (write_line l f) = spill f"
  by (simp add: write_line_def Let_def)

lemma on_disk_write_line: "\<exists>zs. on_disk (write_line l f) = on_disk f @ zs"
  by (simp add: write_line_def Let_def)

lemma on_disk_write_line_no_spill:
  assumes "\<forall>d p. spill f d p = 0"
  shows "on_disk (write_line l f) = on_disk f"
  using assms by (simp add: write_line_def Let_def)

lemma attempt_row_out:
  "\<exists>rec. out (attempt_row sf cfg dry_run n rd st) = write_line (Rec rec) (out st) \<and> o_row rec = n"
  by (auto simp add: attempt_row_def count_success_def count_fail_def log_outcome_def
      split: prod.splits sum.splits)

lemma process_row_out:
  assumes "process_row sf fm cfg dry_run processed (n, r) st = (e, st')"
  shows "(e = None \<and> (\<exists>rec. out st' = write_line (Rec rec) (out st) \<and> o_row rec = n))
       \<or> (\<exists>ex. e = Some ex \<and> st' = st \<and> n \<notin> set processed
                \<and> validate_row fm (row_dict r) (cfg_fields cfg) = Inl ex)"
proof (cases "n \<in> set processed")
  case True
  then show ?thesis
    using assms by (auto simp add: process_row_def log_outcome_def)
next
  case unprocessed: False
  show ?thesis
  proof (cases "validate_row fm (row_dict r) (cfg_fields cfg)")
    case (Inl x)
    then show ?thesis using assms unprocessed by (auto simp add: process_row_def Let_def)
  next
    case (Inr err)
    show ?thesis
    proof (cases "err = None \<or> err = Some []")
      case True
      then have "e = None \<and> st' = attempt_row sf cfg dry_run n (row_dict r) st"
        using assms unprocessed Inr by (auto simp add: process_row_def Let_def)
      then show ?thesis using attempt_row_out [of sf cfg dry_run n "row_dict r" st] by auto
    next
      case False
      then obtain m where "err = Some m" "m \<noteq> []" by (cases err) auto
      then show ?thesis
        using assms unprocessed Inr
        by (auto simp add: process_row_def Let_def count_fail_def log_outcome_def)
    qed
  qed
qed

lemma run_loop_out:
  assumes "run_loop sf fm cfg dry_run processed rows st = (e, st')"
  shows "\<exists>done rest recs.
           rows = done @ rest
         \<and> written (out st') = written (out st) @ map Rec recs
         \<and> map o_row recs = map fst done
         \<and> spill (out st') = spill (out st)
         \<and> (\<exists>zs. on_disk (out st') = on_disk (out st) @ zs)
         \<and> ((\<forall>d p. spill (out st) d p = 0) \<longrightarrow> on_disk (out st') = on_disk (out st))
         \<and> ((e = None \<and> rest = [])
            \<or> (\<exists>n r more ex. rest = (n, r) # more \<and> e = Some ex \<and> n \<notin> set processed
                  \<and> validate_row fm (row_dict r) (cfg_fields cfg) = Inl ex))"
  using assms
proof (induction rows arbitrary: st)
  case Nil
  then have "e = None" "st' = st" by simp_all
  then show ?case
    by (intro exI [of _ "[]"]) simp
next
  case (Cons x xs)
  obtain n r where x: "x = (n, r)" by (cases x)
  obtain e1 st1 where p: "process_row sf fm cfg dry_run processed (n, r) st = (e1, st1)"
    by (cases "process_row sf fm cfg dry_run processed (n, r) st")
  show ?case
  proof (cases e1)
    case None
    then have l: "run_loop sf fm cfg dry_run processed xs st1 = (e, st')"
      using Cons.prems p x by simp
    from process_row_out [OF p] None obtain rec
      where rec: "out st1 = write_line (Rec rec) (out st)" "o_row rec = n" by auto
    have w1: "written (out st1) = written (out st) @ [Rec rec]"
      and s1: "spill (out st1) = spill (out st)"
      using rec by (simp_all add: written_write_line spill_write_line)
    obtain zs1 where d1: "on_disk (out st1) = on_disk (out st) @ zs1"
      using rec on_disk_write_line [of "Rec rec" "out st"] by auto
    have n1: "on_disk (out st1) = on_disk (out st)" if "\<forall>d p. spill (out st) d p = 0"
      using that rec by (simp add: on_disk_write_line_no_spill)
    from Cons.IH [OF l] obtain done' rest recs zs where
      ih: "xs = done' @ rest"
        "written (out st') = written (out st1) @ map Rec recs"
        "map o_row recs = map fst done'"
        "spill (out st') = spill (out st1)"
        "on_disk (out st') = on_disk (out st1) @ zs"
        "(\<forall>d p. spill (out st1) d p = 0) \<longrightarrow> on_disk (out st') = on_disk (out st1)"
        "(e = None \<and> rest = [])
          \<or> (\<exists>n r more ex. rest = (n, r) # more \<and> e = Some ex \<and> n \<notin> set processed
                \<and> validate_row fm (row_dict r) (cfg_fields cfg) = Inl ex)"
      by blast
    have a: "x # xs = (x # done') @ rest"
      using ih(1) by simp
    have b: "written (out st') = written (out st) @ map Rec (rec # recs)"
      using ih(2) w1 by simp
    have c: "map o_row (rec # recs) = map fst (x # done')"
      using ih(3) rec(2) x by simp
    have d: "spill (out st') = spill (out st)"
      using ih(4) s1 by simp
    have f: "\<exists>zs. on_disk (out st') = on_disk (out st) @ zs"
      using ih(5) d1 by simp
    have g: "(\<forall>d p. spill (out st) d p = 0) \<longrightarrow> on_disk (out st') = on_disk (out st)"
      using ih(6) n1 s1 by simp
    show ?thesis
      using a b c d f g ih(7) by blast
  next
    case (Some ex)
    then have e: "e = Some ex" "st' = st1" using Cons.prems p x by simp_all
    from process_row_out [OF p] Some have
      raised: "st1 = st" "n \<notin> set processed"
        "validate_row fm (row_dict r) (cfg_fields cfg) = Inl ex"
      by auto
    have a: "x # xs = [] @ (n, r) # xs"
      using x by simp
    have b: "written (out st') = written (out st) @ map Rec []"
      using e raised by simp
    have c: "map o_row [] = map fst ([] :: (int \<times> row) list)"
      by simp
    have d: "spill (out st') = spill (out st)"
      and f: "\<exists>zs. on_disk (out st') = on_disk (out st) @ zs"
      and g: "(\<forall>d p. spill (out st) d p = 0) \<longrightarrow> on_disk (out st') = on_disk (out st)"
      using e raised by simp_all
    have h: "\<exists>n' r' more ex'. (n, r) # xs = (n', r') # more \<and> e = Some ex' \<and> n' \<notin> set processed
        \<and> validate_row fm (row_dict r') (cfg_fields cfg) = Inl ex'"
      using e raised by blast
    show ?thesis
      using a b c d f g h by blast
  qed
qed

lemma written_open_out:
  "written (open_out buf file0) = (case file0 of None \<Rightarrow> [Header] | Some ls \<Rightarrow> ls)"
  by (simp add: written_def open_out_def write_line_def Let_def split: option.splits)

lemma spill_open_out: "spill (open_out buf file0) = buf"
  by (simp add: open_out_def write_line_def Let_def)

lemma on_disk_open_out_no_spill:
  assumes "\<forall>d p. buf d p = 0"
  shows "on_disk (open_out buf file0) = (case file0 of None \<Rightarrow> [] | Some ls \<Rightarrow> ls)"
  using assms by (simp add: open_out_def write_line_def Let_def split: option.splits)

lemma out_run_finally:
  "out (run_finally st) = \<lparr> on_disk = written (out st), pending = [], spill = spill (out st) \<rparr>"
  by (simp add: run_finally_def close_file_def written_def)

lemma main_after_launch:
  assumes "load_mapping raw = Inr cfg"
    and "load_processed (a_resume a) file0 = Inr processed"
    and "run_loop sf fm cfg (a_dry_run a) processed (numbered_rows a df)
           (start_state buf b file0) = (e, st)"
  shows "log (main sf fm buf (Some b) a raw df file0) = Some (out (run_finally st))"
    and "ending (main sf fm buf (Some b) a raw df file0)
           = (case e of None \<Rightarrow> Returned 0 | Some ex \<Rightarrow> Raised ex)"
  using assms by (cases e; simp add: main_def Let_def)+

text \<open>
  Claim C10. Whenever the program gets as far as opening the log, everything it has
  written to it by the time it ends is the content the file had at startup followed by
  records only, when the file existed, and the header followed by records only, when it
  did not: the header is written for a new file alone, and what earlier runs left in
  the file stays in front, unchanged. This holds for every buffering of the file object.
\<close>

theorem header_only_in_new_file:
  assumes "log (main sf fm buf launch a raw df file0) = Some f"
  shows "\<exists>recs. written f = (case file0 of None \<Rightarrow> [Header] | Some ls \<Rightarrow> ls) @ map Rec recs"
proof (cases "load_mapping raw")
  case (Inl e)
  then show ?thesis using assms by (simp add: main_def)
next
  case cfg: (Inr cfg)
  show ?thesis
  proof (cases "load_processed (a_resume a) file0")
    case (Inl e)
    then show ?thesis using assms cfg by (simp add: main_def Let_def)
  next
    case processed: (Inr processed)
    show ?thesis
    proof (cases launch)
      case None
      then have "f = open_out buf file0"
        using assms cfg processed by (simp add: main_def Let_def)
      then have "written f = (case file0 of None \<Rightarrow> [Header] | Some ls \<Rightarrow> ls) @ map Rec []"
        by (simp add: written_open_out)
      then show ?thesis by blast
    next
      case (Some b)
      obtain e st where l: "run_loop sf fm cfg (a_dry_run a) processed (numbered_rows a df)
          (start_state buf b file0) = (e, st)"
        by (cases "run_loop sf fm cfg (a_dry_run a) processed (numbered_rows a df)
          (start_state buf b file0)")
      have "f = out (run_finally st)"
        using main_after_launch(1) [OF cfg processed l] assms Some by simp
      then have f: "written f = written (out st)"
        by (simp add: out_run_finally written_def)
      from run_loop_out [OF l] obtain recs where
        "written (out st) = written (out (start_state buf b file0)) @ map Rec recs"
        by blast
      then have "written (out st) = written (open_out buf file0) @ map Rec recs"
        by (simp add: start_state_def)
      then show ?thesis using f by (auto simp add: written_open_out)
    qed
  qed
qed

text \<open>
  The theorem on a resumed run over rows 6 and 7 with the earlier log in place, and on
  the same run with no log file: in the first the lines of the earlier log are followed
  by the two new records and no header, in the second the header comes first.
\<close>

theorem header_only_in_new_file_witness:
  "log (main checkbox_page literal_match no_spill (Some False) resume_from_six
          raw_two_field_config seven_rows (Some prior_log))
     = Some \<lparr> on_disk = prior_log
                   @ [Rec \<lparr> o_row = 6, o_status = Success, o_message = [] \<rparr>,
                      Rec \<lparr> o_row = 7, o_status = Success, o_message = ''skipped (resume)'' \<rparr>],
                pending = [], spill = no_spill \<rparr>
   \<and> (\<exists>recs. prior_log
                   @ [Rec \<lparr> o_row = 6, o_status = Success, o_message = [] \<rparr>,
                      Rec \<lparr> o_row = 7, o_status = Success, o_message = ''skipped (resume)'' \<rparr>]
              = prior_log @ map Rec recs)
   \<and> log (main checkbox_page literal_match no_spill (Some False) resume_from_six
          raw_two_field_config seven_rows None)
     = Some \<lparr> on_disk = [Header,
                           Rec \<lparr> o_row = 6, o_status = Success, o_message = [] \<rparr>,
                           Rec \<lparr> o_row = 7, o_status = Success, o_message = [] \<rparr>],
                pending = [], spill = no_spill \<rparr>
   \<and> (\<exists>recs. [Header,
                Rec \<lparr> o_row = 6, o_status = Success, o_message = [] \<rparr>,
                Rec \<lparr> o_row = 7, o_status = Success, o_message = [] \<rparr>]
              = [Header] @ map Rec recs)"
proof -
  have old: "log (main checkbox_page literal_match no_spill (Some False) resume_from_six
      raw_two_field_config seven_rows (Some prior_log))
     = Some \<lparr> on_disk = prior_log
                   @ [Rec \<lparr> o_row = 6, o_status = Success, o_message = [] \<rparr>,
                      Rec \<lparr> o_row = 7, o_status = Success, o_message = ''skipped (resume)'' \<rparr>],
                pending = [], spill = no_spill \<rparr>"
    by (simp add: run_defs resume_from_six_def raw_two_field_config_def raw_field_def
        seven_rows_def ann_def bob_def prior_log_def checkbox_page_def literal_match_def)
  have new: "log (main checkbox_page literal_match no_spill (Some False) resume_from_six
      raw_two_field_config seven_rows None)
     = Some \<lparr> on_disk = [Header,
                           Rec \<lparr> o_row = 6, o_status = Success, o_message = [] \<rparr>,
                           Rec \<lparr> o_row = 7, o_status = Success, o_message = [] \<rparr>],
                pending = [], spill = no_spill \<rparr>"
    by (simp add: run_defs resume_from_six_def raw_two_field_config_def raw_field_def
        seven_rows_def ann_def bob_def checkbox_page_def literal_match_def)
  show ?thesis
    using header_only_in_new_file [OF old] header_only_in_new_file [OF new] old new
    by (simp add: written_def)
qed

text \<open>
  Claim C6, as stated, at a concrete input: a run that starts without a log file and
  processes rows 1 and 2. The three lines it writes are far below the size of the file
  object's buffer, so none is written through. After the loop has processed both rows,
  and before the file is closed, the file holds nothing; the header and both records are
  still pending in the file object.
\<close>

theorem flush_after_each_row_counterexample:
  "out (snd (run_loop checkbox_page literal_match two_field_config False []
               [(1, ann), (2, bob)] (start_state no_spill False None)))
     = \<lparr> on_disk = [],
         pending = [Header,
                    Rec \<lparr> o_row = 1, o_status = Success, o_message = [] \<rparr>,
                    Rec \<lparr> o_row = 2, o_status = Success, o_message = [] \<rparr>],
         spill = no_spill \<rparr>"
  by (simp add: model_defs two_field_config_def plain_rule_def ann_def bob_def
      checkbox_page_def literal_match_def)

text \<open>
  Claim C6, amended. Each row the loop processes hands one record to the log writer, in
  row order: when the loop ends, what has been written to the log is what was written
  when it was opened followed by one record for each of the rows \<open>done\<close>, which are all
  the rows if the loop ended normally and, if an exception \<open>ex\<close> left the loop, the rows
  before the one whose validation raised it. The program asks for no flush: what is in
  the file before the close only grows, by as much as the file object's buffering
  decides, and with a buffer that never fills it is still what the file held at
  startup. The file is closed however the loop ended, and only then is everything
  written in the file, the records of the rows done before an exception included.
\<close>

theorem log_buffered_until_close:
  assumes "load_mapping raw = Inr cfg"
    and "load_processed (a_resume a) file0 = Inr processed"
    and "run_loop sf fm cfg (a_dry_run a) processed (numbered_rows a df)
           (start_state buf b file0) = (e, st)"
  shows "\<exists>done rest recs.
           numbered_rows a df = done @ rest
         \<and> written (out st) = written (open_out buf file0) @ map Rec recs
         \<and> map o_row recs = map fst done
         \<and> ((e = None \<and> rest = [])
            \<or> (\<exists>n r more ex. rest = (n, r) # more \<and> e = Some ex \<and> n \<notin> set processed
                  \<and> validate_row fm (row_dict r) (cfg_fields cfg) = Inl ex))
         \<and> (\<exists>zs. on_disk (out st) = on_disk (open_out buf file0) @ zs)
         \<and> ((\<forall>d p. buf d p = 0) \<longrightarrow>
              on_disk (out st) = (case file0 of None \<Rightarrow> [] | Some ls \<Rightarrow> ls))
         \<and> log (main sf fm buf (Some b) a raw df file0)
             = Some \<lparr> on_disk = written (out st), pending = [], spill = buf \<rparr>
         \<and> ending (main sf fm buf (Some b) a raw df file0)
             = (case e of None \<Rightarrow> Returned 0 | Some ex \<Rightarrow> Raised ex)"
proof -
  let ?st0 = "start_state buf b file0"
  have o: "out ?st0 = open_out buf file0"
    by (simp add: start_state_def)
  from run_loop_out [OF assms(3)] obtain "done" rest recs where
    loop: "numbered_rows a df = done @ rest"
      "written (out st) = written (out ?st0) @ map Rec recs"
      "map o_row recs = map fst done"
      "spill (out st) = spill (out ?st0)"
      "\<exists>zs. on_disk (out st) = on_disk (out ?st0) @ zs"
      "(\<forall>d p. spill (out ?st0) d p = 0) \<longrightarrow> on_disk (out st) = on_disk (out ?st0)"
      "(e = None \<and> rest = [])
        \<or> (\<exists>n r more ex. rest = (n, r) # more \<and> e = Some ex \<and> n \<notin> set processed
              \<and> validate_row fm (row_dict r) (cfg_fields cfg) = Inl ex)"
    by blast
  have quiet: "(\<forall>d p. buf d p = 0) \<longrightarrow>
      on_disk (out st) = (case file0 of None \<Rightarrow> [] | Some ls \<Rightarrow> ls)"
    using loop(6) by (simp add: o spill_open_out on_disk_open_out_no_spill)
  have closed: "log (main sf fm buf (Some b) a raw df file0)
      = Some \<lparr> on_disk = written (out st), pending = [], spill = buf \<rparr>"
    using main_after_launch(1) [OF assms] loop(4)
    by (simp add: out_run_finally o spill_open_out)
  have ended: "ending (main sf fm buf (Some b) a raw df file0)
      = (case e of None \<Rightarrow> Returned 0 | Some ex \<Rightarrow> Raised ex)"
    using assms by (rule main_after_launch(2))
  show ?thesis
    using loop(1,2,3,5,7) quiet closed ended unfolding o by blast
qed

text \<open>
  The theorem on a run over two rows with a mapping whose only validator has no pattern.
  The first row has no \<^verbatim>\<open>email\<close> cell, so the validator is not consulted and the row is
  submitted; validation of the second row raises \<^verbatim>\<open>KeyError\<close>, which leaves the loop.
  The file is closed all the same, and the record of the first row is in it.
\<close>

theorem log_buffered_until_close_witness:
  "log (main checkbox_page literal_match no_spill (Some False) whole_table
          raw_no_pattern_config [Map.empty, bob] None)
     = Some \<lparr> on_disk = [Header, Rec \<lparr> o_row = 1, o_status = Success, o_message = [] \<rparr>],
                pending = [], spill = no_spill \<rparr>
   \<and> ending (main checkbox_page literal_match no_spill (Some False) whole_table
          raw_no_pattern_config [Map.empty, bob] None)
     = Raised (KeyError ''pattern'')"
proof -
  let ?st = "\<lparr> out = \<lparr> on_disk = [],
                       pending = [Header, Rec \<lparr> o_row = 1, o_status = Success,
                                               o_message = [] \<rparr>],
                       spill = no_spill \<rparr>,
               drv = \<lparr> browser = True,
                       calls = [Get ''http://form'', Find_element ''#email'', Clear ''#email'',
                                Send_keys ''#email'' [], Find_element ''#go'', Click ''#go''] \<rparr>,
               successes = 1, fails = 0 \<rparr>"
  have c: "load_mapping raw_no_pattern_config = Inr no_pattern_config"
    by (simp add: load_mapping_def make_FieldRule_def raw_no_pattern_config_def raw_field_def
        no_pattern_config_def plain_rule_def)
  have p: "load_processed (a_resume whole_table) None = Inr []"
    by (simp add: load_processed_def)
  have d: "a_dry_run whole_table = False"
    by (simp add: whole_table_def)
  have rows: "numbered_rows whole_table [Map.empty, bob] = [(1, Map.empty), (2, bob)]"
    by (simp add: numbered_rows_def select_rows_def py_slice_def clamp_index_def
        whole_table_def Let_def)
  have l: "run_loop checkbox_page literal_match no_pattern_config (a_dry_run whole_table) []
      (numbered_rows whole_table [Map.empty, bob]) (start_state no_spill False None)
    = (Some (KeyError ''pattern''), ?st)"
    unfolding rows d
    by (simp add: model_defs no_pattern_config_def no_pattern_def plain_rule_def bob_def
        checkbox_page_def)
  from log_buffered_until_close [OF c p l]
  have "log (main checkbox_page literal_match no_spill (Some False) whole_table
          raw_no_pattern_config [Map.empty, bob] None)
      = Some \<lparr> on_disk = written (out ?st), pending = [], spill = no_spill \<rparr>
    \<and> ending (main checkbox_page literal_match no_spill (Some False) whole_table
          raw_no_pattern_config [Map.empty, bob] None)
      = (case Some (KeyError ''pattern'') of None \<Rightarrow> Returned 0 | Some ex \<Rightarrow> Raised ex)"
    by blast
  then show ?thesis
    by (simp add: written_def)
qed

section \<open>Properties of row numbering\<close>

lemma py_slice_nth:
  assumes "0 \<le> lo" "i < length (py_slice xs lo hi)"
  shows "nat lo + i < length xs \<and> py_slice xs lo hi ! i = xs ! (nat lo + i)"
proof -
  let ?n = "int (length xs)"
  have a: "clamp_index ?n lo = min lo ?n" using assms(1) by (simp add: clamp_index_def)
  obtain k where s: "py_slice xs lo hi = take k (drop (nat (min lo ?n)) xs)"
    using a by (simp add: py_slice_def Let_def)
  have "i < length xs - nat (min lo ?n)" using assms(2) s by simp
  then have lt: "nat lo + i < length xs" and m: "nat (min lo ?n) = nat lo"
    using assms(1) by (auto simp add: min_def split: if_splits)
  have "i < k" using assms(2) s by simp
  then have "py_slice xs lo hi ! i = xs ! (nat lo + i)"
    using s m lt by simp
  with lt show ?thesis by simp
qed

text \<open>
  Without a filter, and with a start of at least 1, the number of a row is its 1-based
  position in the table, whatever the range.
\<close>

lemma numbered_rows_without_filter:
  assumes "a_filter a = None" and "1 \<le> a_start a" and "(n, r) \<in> set (numbered_rows a df)"
  shows "1 \<le> n \<and> nat n \<le> length df \<and> r = df ! (nat n - 1)"
proof -
  have "\<exists>hi. select_rows a df = py_slice df (a_start a - 1) hi"
    using assms(1) by (cases "a_end a") (auto simp add: select_rows_def Let_def)
  then obtain hi where rs: "select_rows a df = py_slice df (a_start a - 1) hi" ..
  let ?rs = "py_slice df (a_start a - 1) hi"
  from assms(3) rs obtain i where i: "i < length ?rs" "n = a_start a + int i" "r = ?rs ! i"
    by (auto simp add: numbered_rows_def Let_def set_zip)
  have "nat (a_start a - 1) + i < length df \<and> ?rs ! i = df ! (nat (a_start a - 1) + i)"
    using py_slice_nth [of "a_start a - 1" i df hi] assms(2) i(1) by simp
  moreover have "nat n - 1 = nat (a_start a - 1) + i" using i(2) assms(2) by linarith
  ultimately show ?thesis using i assms(2) by auto
qed

text \<open>
  Claim C1. The claim says that the number of a row is its 1-based position in the
  source and that a filter which drops earlier rows does not change it. On a table of
  three rows read from row 1, the rows are numbered 1, 2, 3 without a filter; with a
  filter that drops the first row, the second and third rows of the source are numbered
  1 and 2.
\<close>

theorem filter_renumbers_rows:
  "numbered_rows whole_table [carol, dave, erin] = [(1, carol), (2, dave), (3, erin)]
   \<and> numbered_rows (whole_table \<lparr> a_filter := Some us_only \<rparr>) [carol, dave, erin]
       = [(1, dave), (2, erin)]"
proof -
  have "\<not> us_only carol" "us_only dave" "us_only erin"
    by (simp_all add: us_only_def carol_def dave_def erin_def)
  then show ?thesis
    by (simp add: numbered_rows_def select_rows_def py_slice_def clamp_index_def
        whole_table_def Let_def)
qed

end
